theory Spec2Isabelle
  imports Main "HOL-Library.Word" "HOL-Library.Multiset" "HOL-Library.Sublist"
begin

section \<open>Strings\<close>

text \<open>
  A JavaScript string is a sequence of 16-bit code units. String literals of the source
  are written \<open>lit ''...''\<close>; every literal the model needs is ASCII but one character
  of \<open>SYSTEM_INSTRUCTION\<close>, which is given by its code unit.
\<close>

type_synonym jsstring = "16 word list"

definition lit :: "string \<Rightarrow> jsstring" where
  "lit s = map of_char s"

text \<open>\<open>Array.prototype.join\<close> on an array of strings.\<close>

fun js_join :: "jsstring \<Rightarrow> jsstring list \<Rightarrow> jsstring" where
  "js_join sep [] = []"
| "js_join sep [x] = x"
| "js_join sep (x # y # ys) = x @ sep @ js_join sep (y # ys)"

text \<open>
  \<open>String.prototype.trim\<close> removes leading and trailing white space and line
  terminators: TAB, LF, VT, FF, CR, SP, NBSP, U+1680, U+2000 to U+200A, U+2028, U+2029,
  U+202F, U+205F, U+3000 and U+FEFF.
\<close>

definition isWhiteSpace :: "16 word \<Rightarrow> bool" where
  "isWhiteSpace c =
     (c = 0x9 \<or> c = 0xA \<or> c = 0xB \<or> c = 0xC \<or> c = 0xD \<or> c = 0x20 \<or> c = 0xA0 \<or>
      c = 0x1680 \<or> (0x2000 \<le> c \<and> c \<le> 0x200A) \<or> c = 0x2028 \<or> c = 0x2029 \<or>
      c = 0x202F \<or> c = 0x205F \<or> c = 0x3000 \<or> c = 0xFEFF)"

definition trim :: "jsstring \<Rightarrow> jsstring" where
  "trim s = rev (dropWhile isWhiteSpace (rev (dropWhile isWhiteSpace s)))"

text \<open>
  \<open>Number.prototype.toString\<close> on a clock reading: \<open>Date.now()\<close> is a count of
  milliseconds, a natural number here, printed in decimal.
\<close>

fun toString :: "nat \<Rightarrow> jsstring" where
  "toString n =
     (if n < 10 then [of_nat (48 + n)]
      else toString (n div 10) @ [of_nat (48 + n mod 10)])"

declare toString.simps [simp del]

section \<open>Data model (types.ts)\<close>

record DocumentFile =
  name :: jsstring
  content :: jsstring

datatype Sender = user | ai

record ChatMessage =
  id' :: jsstring
  sender :: Sender
  text' :: jsstring

text \<open>
  A thrown value: an instance of \<open>Error\<close> with its message, or any other value
  (what \<open>e instanceof Error\<close> tells apart).
\<close>

datatype exn = Error jsstring | Thrown

section \<open>Uploaded files and pdf.js\<close>

text \<open>
  An item of a page's text content either has a \<open>str\<close> property or is marked
  content without one.
\<close>

datatype TextItem = TextItem jsstring | TextMarkedContent

text \<open>
  The document that \<open>pdfjsLib.getDocument\<close> resolves to: its page count, and for a
  page number what \<open>getPage\<close> followed by \<open>getTextContent\<close> resolves to (the items)
  or rejects with.
\<close>

record PDFDocumentProxy =
  numPages :: nat
  getPage :: "nat \<Rightarrow> exn + TextItem list"

text \<open>
  A selected file: its name, its declared media type, and what the two readers answer on
  its bytes: \<open>file.arrayBuffer()\<close> followed by \<open>getDocument\<close>, and
  \<open>FileReader.readAsText\<close> (\<open>onerror\<close> rejects, \<open>onload\<close> resolves with the
  decoded string).
\<close>

record File =
  file_name :: jsstring
  file_type :: jsstring
  getDocument :: "exn + PDFDocumentProxy"
  readAsText :: "exn + jsstring"

section \<open>Application state (the React state of App)\<close>

record AppState =
  documents :: "DocumentFile list"
  messages :: "ChatMessage list"
  userInput :: jsstring
  isLoading :: bool
  error :: "jsstring option"

definition initial :: AppState where
  "initial = \<lparr>documents = [], messages = [], userInput = [], isLoading = False, error = None\<rparr>"

section \<open>handleFileChange\<close>

text \<open>
  \<open>textContent.items.map(item => ('str' in item ? item.str : '')).join(' ')\<close>
\<close>

definition pageText :: "TextItem list \<Rightarrow> jsstring" where
  "pageText items =
     js_join (lit '' '') (map (\<lambda>item. case item of TextItem s \<Rightarrow> s | TextMarkedContent \<Rightarrow> []) items)"

text \<open>
  The loop \<open>for (let i = 1; i <= pdf.numPages; i++)\<close> with its accumulator
  \<open>fullText\<close>; a rejected page leaves the loop through the enclosing \<open>catch\<close>.
\<close>

function pdf_pages :: "PDFDocumentProxy \<Rightarrow> nat \<Rightarrow> jsstring \<Rightarrow> exn + jsstring" where
  "pdf_pages pdf i fullText =
     (if i \<le> numPages pdf then
        (case getPage pdf i of
           Inl err \<Rightarrow> Inl err
         | Inr items \<Rightarrow> pdf_pages pdf (i + 1) (fullText @ pageText items @ lit ''\<newline>\<newline>''))
      else Inr fullText)"
  by pat_completeness auto
termination
  by (relation "measure (\<lambda>(pdf, i, fullText). Suc (numPages pdf) - i)") auto

declare pdf_pages.simps [simp del]

text \<open>The \<open>content\<close> that a file's task computes, or the error it rejects with.\<close>

definition read_content :: "File \<Rightarrow> exn + jsstring" where
  "read_content file =
     (if file_type file = lit ''application/pdf'' then
        (case getDocument file of
           Inl err \<Rightarrow> Inl err
         | Inr pdf \<Rightarrow> pdf_pages pdf 1 [])
      else readAsText file)"

text \<open>
  One file's promise: it rejects, or it resolves after pushing a document onto
  \<open>newDocs\<close> (\<open>Some\<close>) or after pushing nothing because the content is empty
  (\<open>None\<close>). From the last \<open>await\<close> of a task to its \<open>resolve()\<close> or
  \<open>reject(err)\<close> nothing suspends, so the push and the settling of the promise are one
  step of the event loop.
\<close>

definition read_file :: "File \<Rightarrow> exn + DocumentFile option" where
  "read_file file =
     (case read_content file of
        Inl err \<Rightarrow> Inl err
      | Inr c \<Rightarrow> Inr (if c \<noteq> [] then Some \<lparr>name = file_name file, content = c\<rparr> else None))"

text \<open>
  The tasks of a batch run interleaved and finish in an order the environment decides:
  \<open>order\<close> lists the indices of the files in the order in which their tasks finish.
  \<open>settle\<close> runs the batch to the point where \<open>Promise.all(readPromises)\<close> settles:
  it rejects with the first rejection, or resolves once every task has resolved, and then
  \<open>newDocs\<close> holds what the tasks pushed, in the order they pushed it. An index that
  names no file finishes nothing.
\<close>

fun settle :: "File list \<Rightarrow> nat list \<Rightarrow> DocumentFile list \<Rightarrow> exn + DocumentFile list" where
  "settle files [] newDocs = Inr newDocs"
| "settle files (i # order) newDocs =
     (if i < length files then
        (case read_file (files ! i) of
           Inl err \<Rightarrow> Inl err
         | Inr None \<Rightarrow> settle files order newDocs
         | Inr (Some doc) \<Rightarrow> settle files order (newDocs @ [doc]))
      else settle files order newDocs)"

text \<open>An order of completion of \<open>n\<close> tasks names each task once.\<close>

definition completion_order :: "nat \<Rightarrow> nat list \<Rightarrow> bool" where
  "completion_order n order = (length order = n \<and> distinct order \<and> list_all (\<lambda>i. i < n) order)"

text \<open>
  The handler, taken at the moment the batch settles: \<open>event.target.files\<close> may be
  null (\<open>None\<close>); the state update \<open>prevDocs => [...prevDocs, ...newDocs]\<close> applies to
  the state of that moment.
\<close>

definition handleFileChange :: "File list option \<Rightarrow> nat list \<Rightarrow> AppState \<Rightarrow> AppState" where
  "handleFileChange files order s =
     (case files of
        None \<Rightarrow> s
      | Some fs \<Rightarrow>
          (case settle fs order [] of
             Inr newDocs \<Rightarrow> s\<lparr>documents := documents s @ newDocs\<rparr>
           | Inl err \<Rightarrow>
               s\<lparr>error := Some (lit ''There was an error reading one or more files. Please ensure they are valid text or PDF files.'')\<rparr>))"

text \<open>The documents of a batch in the order of selection, empty ones dropped.\<close>

definition selected_docs :: "File list \<Rightarrow> DocumentFile list" where
  "selected_docs files =
     List.map_filter (\<lambda>f. case read_file f of Inl err \<Rightarrow> None | Inr d \<Rightarrow> d) files"

section \<open>removeDocument\<close>

definition removeDocument :: "jsstring \<Rightarrow> AppState \<Rightarrow> AppState" where
  "removeDocument docName s = s\<lparr>documents := filter (\<lambda>doc. name doc \<noteq> docName) (documents s)\<rparr>"

section \<open>services/geminiService.ts\<close>

definition SYSTEM_INSTRUCTION :: jsstring where
  \<open>SYSTEM_INSTRUCTION =
     lit ''You are an intelligent assistant built to analyze and answer questions about uploaded documents. Your primary goal is to provide clear, accurate, and concise answers based ONLY on the text from the documents provided.\<newline>\<newline>Answering Rules:\<newline>1.  **Strictly Grounded:** Base your entire response strictly on the content of the provided document(s). Do not use any external knowledge.\<newline>2.  **Cite Sources:** If possible, include a brief reference to where the information was found (e.g., section name, document name, or a key phrase). Format it at the end of your main answer, starting with "Source:".\<newline>3.  **Handle Uncertainty:** If the answer to a question cannot be found in the document, you MUST respond with the exact phrase: "This information doesn''
     @ [0x2019] @
     lit ''t appear in the provided document."\<newline>4.  **Summaries:** When asked for a summary, provide it in a simple, factual, bullet-point list.\<newline>5.  **Clarity and Conciseness:** Keep your answers direct and to the point.\<newline>''\<close>

text \<open>The argument of \<open>ai.models.generateContent\<close>.\<close>

record GenerateContentParameters =
  model :: jsstring
  contents :: jsstring
  systemInstruction :: jsstring

text \<open>
  What the service reads from its environment: \<open>process.env.API_KEY\<close> (possibly
  undefined), and the remote endpoint, which answers a request with the text of a response
  or makes \<open>generateContent\<close> throw.
\<close>

record Env =
  API_KEY :: "jsstring option"
  generateContent :: "GenerateContentParameters \<Rightarrow> exn + jsstring"

text \<open>The template literal that renders one document.\<close>

definition document_block :: "DocumentFile \<Rightarrow> jsstring" where
  "document_block doc =
     lit ''\<newline>---\<newline>Document: '' @ name doc @ lit ''\<newline>Content:\<newline>'' @ content doc
       @ lit ''\<newline>---\<newline>  ''"

definition documentsContext :: "DocumentFile list \<Rightarrow> jsstring" where
  "documentsContext docs = js_join (lit ''\<newline>'') (map document_block docs)"

definition userPrompt :: "jsstring \<Rightarrow> DocumentFile list \<Rightarrow> jsstring" where
  "userPrompt question docs =
     lit ''\<newline>CONTEXT FROM DOCUMENTS:\<newline>'' @ documentsContext docs
       @ lit ''\<newline>\<newline>Based on the document(s) provided, answer the following question.\<newline>\<newline>USER QUESTION:\<newline>''
       @ question @ lit ''\<newline>''"

text \<open>
  \<open>askAboutDocuments\<close> returns what its promise settles to, together with the requests
  it sent to the endpoint. \<open>!process.env.API_KEY\<close> holds for an undefined and for an
  empty key.
\<close>

definition askAboutDocuments ::
  "Env \<Rightarrow> jsstring \<Rightarrow> DocumentFile list \<Rightarrow> (exn + jsstring) \<times> GenerateContentParameters list" where
  "askAboutDocuments env question docs =
     (if API_KEY env = None \<or> API_KEY env = Some [] then
        (Inl (Error (lit ''API_KEY environment variable not set'')), [])
      else
        let request = \<lparr>model = lit ''gemini-2.5-flash'', contents = userPrompt question docs,
                         systemInstruction = SYSTEM_INSTRUCTION\<rparr>
        in (case generateContent env request of
              Inr response_text \<Rightarrow> (Inr response_text, [request])
            | Inl err \<Rightarrow>
                (Inl (Error (lit ''Failed to get a response from the AI. Please check the console for details.'')),
                 [request])))"

section \<open>handleSubmit\<close>

text \<open>
  The handler up to its \<open>await\<close>, called from a render that shows the state
  \<open>s\<close> (the \<open>isLoading\<close> and \<open>documents\<close> it closes over are those of
  \<open>s\<close>): the new state, and the arguments of the call of \<open>askAboutDocuments\<close>
  when it reaches one. \<open>now\<close> is the reading of \<open>Date.now()\<close>.
\<close>

definition handleSubmit_begin ::
  "jsstring \<Rightarrow> nat \<Rightarrow> AppState \<Rightarrow> AppState \<times> (jsstring \<times> DocumentFile list) option" where
  "handleSubmit_begin query now s =
     (if trim query = [] \<or> isLoading s then (s, None)
      else if length (documents s) = 0 then
        (s\<lparr>error := Some (lit ''Please upload at least one document before asking a question.'')\<rparr>, None)
      else
        (s\<lparr>error := None,
           messages := messages s @ [\<lparr>id' = toString now, sender = user, text' = query\<rparr>],
           isLoading := True\<rparr>,
         Some (query, documents s)))"

text \<open>
  The handler from the moment the awaited promise settles: \<open>try\<close>, \<open>catch\<close> and
  \<open>finally\<close>, on the state of that moment.
\<close>

definition handleSubmit_end :: "exn + jsstring \<Rightarrow> nat \<Rightarrow> AppState \<Rightarrow> AppState" where
  "handleSubmit_end result now s =
     (let s1 = (case result of
                  Inr aiResponseText \<Rightarrow>
                    s\<lparr>messages := messages s @ [\<lparr>id' = toString (now + 1), sender = ai, text' = aiResponseText\<rparr>]\<rparr>
                | Inl (Error message) \<Rightarrow> s\<lparr>error := Some message\<rparr>
                | Inl Thrown \<Rightarrow> s\<lparr>error := Some (lit ''An unknown error occurred.'')\<rparr>)
      in s1\<lparr>isLoading := False, userInput := []\<rparr>)"

text \<open>
  One submission run from the event to the end of the handler with no other event in
  between: the final state and the requests sent. \<open>now\<close> and \<open>later\<close> are the two
  clock readings.
\<close>

definition handleSubmit ::
  "Env \<Rightarrow> jsstring \<Rightarrow> nat \<Rightarrow> nat \<Rightarrow> AppState \<Rightarrow> AppState \<times> GenerateContentParameters list" where
  "handleSubmit env query now later s =
     (case handleSubmit_begin query now s of
        (s1, None) \<Rightarrow> (s1, [])
      | (s1, Some (q, docs)) \<Rightarrow>
          (case askAboutDocuments env q docs of
             (result, calls) \<Rightarrow> (handleSubmit_end result later s1, calls)))"

text \<open>
  The same part of the handler without the assumption that the render is up to date.
  \<open>handleSubmit\<close> is made by \<open>useCallback\<close> with the dependencies
  \<open>isLoading\<close> and \<open>documents\<close>: a new function is made only when the component
  renders, and the function of a render holds the \<open>isLoading\<close> and \<open>documents\<close>
  of the state at that render, \<open>seen\<close>. Both guards and the call read them there;
  \<open>setIsLoading(true)\<close> does not change what the function holds. The updates
  \<open>setError\<close>, \<open>setMessages(prev => ...)\<close> and \<open>setIsLoading\<close> go to the
  state of the moment, \<open>s\<close>.
\<close>

definition handleSubmit_closure ::
  "AppState \<Rightarrow> jsstring \<Rightarrow> nat \<Rightarrow> AppState \<Rightarrow> AppState \<times> (jsstring \<times> DocumentFile list) option" where
  "handleSubmit_closure seen query now s =
     (if trim query = [] \<or> isLoading seen then (s, None)
      else if length (documents seen) = 0 then
        (s\<lparr>error := Some (lit ''Please upload at least one document before asking a question.'')\<rparr>, None)
      else
        (s\<lparr>error := None,
           messages := messages s @ [\<lparr>id' = toString now, sender = user, text' = query\<rparr>],
           isLoading := True\<rparr>,
         Some (query, documents seen)))"

section \<open>handleSuggestionClick\<close>

text \<open>The handler of a render reads the \<open>documents\<close> of the state at that render, \<open>seen\<close>.\<close>

definition handleSuggestionClick :: "AppState \<Rightarrow> jsstring \<Rightarrow> AppState \<Rightarrow> AppState" where
  "handleSuggestionClick seen suggestion s =
     (if length (documents seen) = 0 then s\<lparr>error := Some (lit ''Please upload a document first.'')\<rparr>
      else s\<lparr>userInput := suggestion\<rparr>)"

section \<open>The application as a machine of events\<close>

text \<open>
  The handlers run on one thread, one event at a time. Beside the React state the machine
  holds: the state as the last render saw it, \<open>rendered\<close>, which is what the handlers
  of that render close over; the settled results of the calls of \<open>askAboutDocuments\<close>
  whose \<open>await\<close> has not resumed yet, oldest first; and the requests sent to the
  endpoint so far. A render is an event of its own: React renders some time after an event
  that set state, and until it has, a handler called again still holds what the last
  render saw. The events: a batch of uploads settles (with the order in which its tasks
  finished), a document is removed, a question is submitted (with the clock reading), the
  awaited call resumes the handler (with the clock reading; it does nothing when no call is
  awaited), a suggestion is chosen, the input is edited, the component renders.
  \<open>handleFileChange\<close>, \<open>removeDocument\<close> and the end of \<open>handleSubmit\<close> read
  nothing of the render: their updates are functions of the state of the moment or
  constants.
\<close>

datatype event =
    FilesSelected "File list option" "nat list"
  | DocumentRemoved jsstring
  | QuestionSubmitted jsstring nat
  | AnswerArrived nat
  | SuggestionChosen jsstring
  | InputChanged jsstring
  | Rendered

record System =
  app :: AppState
  rendered :: AppState
  in_flight :: "(exn + jsstring) list"
  network :: "GenerateContentParameters list"

definition start :: System where
  "start = \<lparr>app = initial, rendered = initial, in_flight = [], network = []\<rparr>"

fun step :: "Env \<Rightarrow> System \<Rightarrow> event \<Rightarrow> System" where
  "step env \<sigma> (FilesSelected files order) = \<sigma>\<lparr>app := handleFileChange files order (app \<sigma>)\<rparr>"
| "step env \<sigma> (DocumentRemoved docName) = \<sigma>\<lparr>app := removeDocument docName (app \<sigma>)\<rparr>"
| "step env \<sigma> (QuestionSubmitted query now) =
     (case handleSubmit_closure (rendered \<sigma>) query now (app \<sigma>) of
        (s1, None) \<Rightarrow> \<sigma>\<lparr>app := s1\<rparr>
      | (s1, Some (q, docs)) \<Rightarrow>
          (case askAboutDocuments env q docs of
             (result, calls) \<Rightarrow>
               \<sigma>\<lparr>app := s1, in_flight := in_flight \<sigma> @ [result], network := network \<sigma> @ calls\<rparr>))"
| "step env \<sigma> (AnswerArrived now) =
     (case in_flight \<sigma> of
        [] \<Rightarrow> \<sigma>
      | result # rest \<Rightarrow> \<sigma>\<lparr>app := handleSubmit_end result now (app \<sigma>), in_flight := rest\<rparr>)"
| "step env \<sigma> (SuggestionChosen suggestion) =
     \<sigma>\<lparr>app := handleSuggestionClick (rendered \<sigma>) suggestion (app \<sigma>)\<rparr>"
| "step env \<sigma> (InputChanged v) = \<sigma>\<lparr>app := (app \<sigma>)\<lparr>userInput := v\<rparr>\<rparr>"
| "step env \<sigma> Rendered = \<sigma>\<lparr>rendered := app \<sigma>\<rparr>"

definition run :: "Env \<Rightarrow> event list \<Rightarrow> System" where
  "run env events = foldl (step env) start events"

section \<open>Notions the properties are stated with\<close>

text \<open>
  The text of a PDF as the specification words it: the tokens of a page joined by a
  single space (\<open>pageText\<close>), the pages joined by two newlines.
\<close>

definition spec_pdf_text :: "TextItem list list \<Rightarrow> jsstring" where
  "spec_pdf_text pages = js_join (lit ''\<newline>\<newline>'') (map pageText pages)"

text \<open>A file whose task rejects.\<close>

definition rejects :: "File \<Rightarrow> bool" where
  "rejects file = (case read_file file of Inl err \<Rightarrow> True | Inr d \<Rightarrow> False)"

text \<open>
  \<open>in_order ps s\<close>: the strings \<open>ps\<close> occur in \<open>s\<close> as substrings, one after the
  other in the order of the list, without overlap.
\<close>

fun in_order :: "'a list list \<Rightarrow> 'a list \<Rightarrow> bool" where
  "in_order [] s = True"
| "in_order (p # ps) s = (\<exists>pre post. s = pre @ p @ post \<and> in_order ps post)"

text \<open>
  At most one call of \<open>askAboutDocuments\<close> is awaited, and one is awaited exactly
  when \<open>isLoading\<close> is set.
\<close>

definition one_in_flight :: "System \<Rightarrow> bool" where
  "one_in_flight \<sigma> = (length (in_flight \<sigma>) \<le> 1 \<and> (isLoading (app \<sigma>) \<longleftrightarrow> in_flight \<sigma> \<noteq> []))"

text \<open>
  A sequence of events in which the component has rendered right before every
  submission; \<open>fresh\<close> tells whether it has right before the first event.
\<close>

fun rendered_before_submitting :: "bool \<Rightarrow> event list \<Rightarrow> bool" where
  "rendered_before_submitting fresh [] = True"
| "rendered_before_submitting fresh (Rendered # es) = rendered_before_submitting True es"
| "rendered_before_submitting fresh (QuestionSubmitted query now # es) =
     (fresh \<and> rendered_before_submitting False es)"
| "rendered_before_submitting fresh (e # es) = rendered_before_submitting False es"

section \<open>Concrete inputs\<close>

definition file_a :: File where
  "file_a = \<lparr>file_name = lit ''a.txt'', file_type = lit ''text/plain'',
              getDocument = Inl Thrown, readAsText = Inr (lit ''alpha'')\<rparr>"

definition file_b :: File where
  "file_b = \<lparr>file_name = lit ''b.txt'', file_type = lit ''text/plain'',
              getDocument = Inl Thrown, readAsText = Inr (lit ''beta'')\<rparr>"

definition corrupt_pdf :: File where
  "corrupt_pdf = \<lparr>file_name = lit ''c.pdf'', file_type = lit ''application/pdf'',
                   getDocument = Inl (Error (lit ''Invalid PDF structure.'')),
                   readAsText = Inr (lit ''garbage'')\<rparr>"

definition doc_a :: DocumentFile where
  "doc_a = \<lparr>name = lit ''a.txt'', content = lit ''alpha''\<rparr>"

definition doc_b :: DocumentFile where
  "doc_b = \<lparr>name = lit ''b.txt'', content = lit ''beta''\<rparr>"

definition page_a :: "TextItem list" where
  "page_a = [TextItem (lit ''Hello''), TextItem (lit ''world'')]"

definition page_b :: "TextItem list" where
  "page_b = [TextItem (lit ''Bye'')]"

definition two_page_pdf :: PDFDocumentProxy where
  "two_page_pdf = \<lparr>numPages = 2, getPage = (\<lambda>i. Inr (if i = 1 then page_a else page_b))\<rparr>"

definition pdf_file :: File where
  "pdf_file = \<lparr>file_name = lit ''a.pdf'', file_type = lit ''application/pdf'',
                getDocument = Inr two_page_pdf, readAsText = Inr (lit ''%PDF'')\<rparr>"

definition notes_doc :: DocumentFile where
  "notes_doc = \<lparr>name = lit ''notes.txt'', content = lit ''The sky is blue.''\<rparr>"

definition notes_txt :: File where
  "notes_txt = \<lparr>file_name = lit ''notes.txt'', file_type = lit ''text/plain'',
                 getDocument = Inl Thrown, readAsText = Inr (lit ''The sky is blue.'')\<rparr>"

definition with_notes :: AppState where
  "with_notes = initial\<lparr>documents := [notes_doc]\<rparr>"

definition sky_question :: jsstring where
  "sky_question = lit ''What color is the sky?''"

text \<open>An endpoint that answers, no credential, and an endpoint that fails.\<close>

definition env_ok :: Env where
  "env_ok = \<lparr>API_KEY = Some (lit ''key''), generateContent = (\<lambda>request. Inr (lit ''The sky is blue.''))\<rparr>"

definition env_no_key :: Env where
  "env_no_key = \<lparr>API_KEY = None, generateContent = (\<lambda>request. Inr (lit ''The sky is blue.''))\<rparr>"

definition env_down :: Env where
  "env_down = \<lparr>API_KEY = Some (lit ''key''), generateContent = (\<lambda>request. Inl Thrown)\<rparr>"

text \<open>
  A session: one file uploaded and a question asked at clock reading 1000; then the answer
  arrives at 5000 and the next question is asked at 5001. The component renders after
  every event that sets state.
\<close>

definition asked_once :: "event list" where
  "asked_once = [FilesSelected (Some [notes_txt]) [0], Rendered, QuestionSubmitted sky_question 1000]"

definition asked_twice :: "event list" where
  "asked_twice =
     asked_once @ [Rendered, AnswerArrived 5000, Rendered, QuestionSubmitted sky_question 5001]"

text \<open>
  Another session: after the first question the handler is called again, at 1001, before
  the component has rendered.
\<close>

definition asked_before_render :: "event list" where
  "asked_before_render = asked_once @ [QuestionSubmitted sky_question 1001]"

section \<open>Extraction of a PDF\<close>

lemma js_join_terminated:
  "xs \<noteq> [] \<Longrightarrow> concat (map (\<lambda>x. x @ sep) xs) = js_join sep xs @ sep"
  by (induction sep xs rule: js_join.induct) simp_all

lemma pdf_pages_all_pages:
  assumes "\<forall>j. i \<le> j \<and> j \<le> numPages pdf \<longrightarrow> getPage pdf j = Inr (items j)"
  shows "pdf_pages pdf i acc =
           Inr (acc @ concat (map (\<lambda>j. pageText (items j) @ lit ''\<newline>\<newline>'') [i..<Suc (numPages pdf)]))"
  using assms
proof (induction pdf i acc rule: pdf_pages.induct)
  case (1 pdf i fullText)
  show ?case
  proof (cases "i \<le> numPages pdf")
    case True
    then have page: "getPage pdf i = Inr (items i)"
      using "1.prems" by simp
    have rest: "\<forall>j. i + 1 \<le> j \<and> j \<le> numPages pdf \<longrightarrow> getPage pdf j = Inr (items j)"
      using "1.prems" by simp
    have upt: "[i..<Suc (numPages pdf)] = i # [i + 1..<Suc (numPages pdf)]"
      using True by (simp add: upt_conv_Cons)
    have "pdf_pages pdf i fullText =
            pdf_pages pdf (i + 1) (fullText @ pageText (items i) @ lit ''\<newline>\<newline>'')"
      using True page by (subst pdf_pages.simps) simp
    also have "\<dots> = Inr ((fullText @ pageText (items i) @ lit ''\<newline>\<newline>'') @
        concat (map (\<lambda>j. pageText (items j) @ lit ''\<newline>\<newline>'') [i + 1..<Suc (numPages pdf)]))"
      by (rule "1.IH" [OF True page rest])
    also have "\<dots> = Inr (fullText @
        concat (map (\<lambda>j. pageText (items j) @ lit ''\<newline>\<newline>'') [i..<Suc (numPages pdf)]))"
      by (simp only: upt list.map concat.simps append_assoc)
    finally show ?thesis .
  next
    case False
    then show ?thesis
      by (subst pdf_pages.simps) simp
  qed
qed

lemma read_content_pdf_file:
  "read_content pdf_file = Inr (lit ''Hello world\<newline>\<newline>Bye\<newline>\<newline>'')"
  by (simp add: read_content_def pdf_file_def two_page_pdf_def pdf_pages.simps pageText_def
      page_a_def page_b_def lit_def)

text \<open>
  Claim C4, as amended: for a PDF of \<open>N \<ge> 1\<close> pages that all yield their items, the
  extracted text is the page texts in the order 1 to \<open>N\<close>, each page's tokens joined by
  a single space, the pages joined by two newlines, and two more newlines after the last
  page: every page, the last one too, is followed by two newlines.
\<close>

theorem pdf_pages_in_order_each_terminated:
  assumes "file_type file = lit ''application/pdf''"
    and "getDocument file = Inr pdf"
    and "1 \<le> numPages pdf"
    and "\<forall>i. 1 \<le> i \<and> i \<le> numPages pdf \<longrightarrow> getPage pdf i = Inr (items i)"
  shows "read_content file =
           Inr (spec_pdf_text (map items [1..<Suc (numPages pdf)]) @ lit ''\<newline>\<newline>'')"
proof -
  have ne: "map (\<lambda>j. pageText (items j)) [1..<Suc (numPages pdf)] \<noteq> []"
    using assms(3) by simp
  have "pdf_pages pdf 1 [] =
          Inr (concat (map (\<lambda>j. pageText (items j) @ lit ''\<newline>\<newline>'') [1..<Suc (numPages pdf)]))"
    using pdf_pages_all_pages [OF assms(4), of "[]"] by simp
  also have "concat (map (\<lambda>j. pageText (items j) @ lit ''\<newline>\<newline>'') [1..<Suc (numPages pdf)]) =
               concat (map (\<lambda>x. x @ lit ''\<newline>\<newline>'') (map (\<lambda>j. pageText (items j)) [1..<Suc (numPages pdf)]))"
    by (simp add: comp_def)
  also have "\<dots> = js_join (lit ''\<newline>\<newline>'') (map (\<lambda>j. pageText (items j)) [1..<Suc (numPages pdf)])
                      @ lit ''\<newline>\<newline>''"
    by (rule js_join_terminated [OF ne])
  finally show ?thesis
    using assms(1,2) by (simp add: read_content_def spec_pdf_text_def comp_def)
qed

text \<open>The theorem at a PDF of two pages.\<close>

theorem pdf_pages_in_order_each_terminated_witness:
  "file_type pdf_file = lit ''application/pdf'' \<and> getDocument pdf_file = Inr two_page_pdf \<and>
   numPages two_page_pdf = 2 \<and> getPage two_page_pdf 1 = Inr page_a \<and> getPage two_page_pdf 2 = Inr page_b \<and>
   read_content pdf_file = Inr (spec_pdf_text [page_a, page_b] @ lit ''\<newline>\<newline>'')"
  using pdf_pages_in_order_each_terminated [of pdf_file two_page_pdf "\<lambda>i. if i = 1 then page_a else page_b"]
  by (simp add: pdf_file_def two_page_pdf_def upt_rec)

text \<open>
  Claim C4 as stated fails on a PDF of two pages: the extracted text is not the pages
  joined by two newlines, it ends with two newlines more.
\<close>

theorem pdf_pages_joined_counterexample:
  "file_type pdf_file = lit ''application/pdf'' \<and> getDocument pdf_file = Inr two_page_pdf \<and>
   numPages two_page_pdf = 2 \<and> getPage two_page_pdf 1 = Inr page_a \<and> getPage two_page_pdf 2 = Inr page_b \<and>
   spec_pdf_text [page_a, page_b] = lit ''Hello world\<newline>\<newline>Bye'' \<and>
   read_content pdf_file = Inr (lit ''Hello world\<newline>\<newline>Bye\<newline>\<newline>'') \<and>
   read_content pdf_file \<noteq> Inr (spec_pdf_text [page_a, page_b])"
proof -
  have "spec_pdf_text [page_a, page_b] = lit ''Hello world\<newline>\<newline>Bye''"
    by (simp add: spec_pdf_text_def pageText_def page_a_def page_b_def lit_def)
  moreover have "lit ''Hello world\<newline>\<newline>Bye\<newline>\<newline>'' \<noteq> lit ''Hello world\<newline>\<newline>Bye''"
    by (simp add: lit_def)
  ultimately show ?thesis
    by (simp add: read_content_pdf_file) (simp add: pdf_file_def two_page_pdf_def)
qed

section \<open>A batch of uploads\<close>

lemma settle_rejects:
  "i \<in> set order \<Longrightarrow> i < length files \<Longrightarrow> rejects (files ! i) \<Longrightarrow>
   \<exists>err. settle files order acc = Inl err"
proof (induction order arbitrary: acc)
  case Nil
  then show ?case by simp
next
  case (Cons j order)
  show ?case
  proof (cases "j = i")
    case True
    then show ?thesis
      using Cons.prems by (auto simp: rejects_def split: sum.splits)
  next
    case False
    then have "i \<in> set order"
      using Cons.prems by simp
    then show ?thesis
      using Cons.IH Cons.prems by (simp split: sum.splits option.splits)
  qed
qed

lemma completion_order_set:
  assumes "completion_order n order"
  shows "set order = {0..<n}"
proof -
  have "set order \<subseteq> {0..<n}"
    using assms by (auto simp: completion_order_def list_all_iff)
  moreover have "card (set order) = card {0..<n}"
    using assms by (simp add: completion_order_def distinct_card)
  ultimately show ?thesis
    by (simp add: card_subset_eq)
qed

lemma completion_order_mset:
  assumes "completion_order n order"
  shows "mset order = mset [0..<n]"
proof -
  have "distinct order"
    using assms by (simp add: completion_order_def)
  then have "mset order = mset_set (set order)"
    by (simp add: mset_set_set)
  also have "\<dots> = mset_set (set [0..<n])"
    using completion_order_set [OF assms] by simp
  also have "\<dots> = mset [0..<n]"
    by (rule mset_set_set) simp
  finally show ?thesis .
qed

lemma settle_resolves:
  assumes "list_all (\<lambda>f. \<not> rejects f) files"
    and "list_all (\<lambda>i. i < length files) order"
  shows "settle files order acc = Inr (acc @ selected_docs (map ((!) files) order))"
  using assms(2)
proof (induction order arbitrary: acc)
  case Nil
  then show ?case by (simp add: selected_docs_def)
next
  case (Cons i order)
  then have i: "i < length files" and rest: "list_all (\<lambda>i. i < length files) order"
    by simp_all
  have "\<not> rejects (files ! i)"
    using assms(1) i by (simp add: list_all_length)
  then obtain d where d: "read_file (files ! i) = Inr d"
    by (auto simp: rejects_def split: sum.splits)
  show ?case
    using Cons.IH [OF rest] i d
    by (cases d) (simp_all add: selected_docs_def)
qed

lemma read_text_files:
  "read_file file_a = Inr (Some doc_a)" "read_file file_b = Inr (Some doc_b)"
  "read_file notes_txt = Inr (Some notes_doc)" "rejects corrupt_pdf"
  by (simp_all add: rejects_def read_file_def read_content_def file_a_def file_b_def notes_txt_def
      corrupt_pdf_def doc_a_def doc_b_def notes_doc_def lit_def)

text \<open>
  Claim C1: when the task of any file of a batch fails, the batch adds no document: the
  handler leaves the state as it was but for the error slot, which holds the message for
  the user; the documents of earlier batches stay as they were.
\<close>

theorem batch_rejected_as_a_whole:
  assumes "completion_order (length files) order"
    and "list_ex rejects files"
  shows "handleFileChange (Some files) order s =
           s\<lparr>error := Some (lit ''There was an error reading one or more files. Please ensure they are valid text or PDF files.'')\<rparr>
         \<and> documents (handleFileChange (Some files) order s) = documents s"
proof -
  obtain i where i: "i < length files" and r: "rejects (files ! i)"
    using assms(2) by (auto simp: list_ex_iff in_set_conv_nth)
  have "i \<in> set order"
    using completion_order_set [OF assms(1)] i by simp
  then obtain err where "settle files order [] = Inl err"
    using settle_rejects [OF _ i r] by blast
  then show ?thesis
    by (simp add: handleFileChange_def)
qed

text \<open>A text file and a corrupt PDF selected together, one document held before.\<close>

theorem batch_rejected_as_a_whole_witness:
  "completion_order (length [file_a, corrupt_pdf]) [0, 1] \<and> list_ex rejects [file_a, corrupt_pdf] \<and>
   handleFileChange (Some [file_a, corrupt_pdf]) [0, 1] (initial\<lparr>documents := [doc_b]\<rparr>) =
     initial\<lparr>documents := [doc_b],
       error := Some (lit ''There was an error reading one or more files. Please ensure they are valid text or PDF files.'')\<rparr>"
  using batch_rejected_as_a_whole [of "[file_a, corrupt_pdf]" "[0, 1]" "initial\<lparr>documents := [doc_b]\<rparr>"]
  by (simp add: completion_order_def read_text_files)

text \<open>
  Claim C2, as amended: when every task of a batch succeeds, the documents of the batch
  are appended in the order in which the tasks complete. They are the documents of the
  selected files, each once (a permutation of the selection order), and they stand in the
  selection order when the tasks complete in that order.
\<close>

theorem batch_appended_in_completion_order:
  assumes "completion_order (length files) order"
    and "list_all (\<lambda>f. \<not> rejects f) files"
  shows "handleFileChange (Some files) order s =
           s\<lparr>documents := documents s @ selected_docs (map ((!) files) order)\<rparr>
         \<and> mset (selected_docs (map ((!) files) order)) = mset (selected_docs files)
         \<and> (order = [0..<length files] \<longrightarrow>
              handleFileChange (Some files) order s = s\<lparr>documents := documents s @ selected_docs files\<rparr>)"
proof -
  have range: "list_all (\<lambda>i. i < length files) order"
    using assms(1) by (simp add: completion_order_def)
  have app: "handleFileChange (Some files) order s =
           s\<lparr>documents := documents s @ selected_docs (map ((!) files) order)\<rparr>"
    using settle_resolves [OF assms(2) range, of "[]"] by (simp add: handleFileChange_def)
  have "mset (map ((!) files) order) = image_mset ((!) files) (mset [0..<length files])"
    using completion_order_mset [OF assms(1)] by (metis mset_map)
  also have "\<dots> = mset (map ((!) files) [0..<length files])"
    by simp
  also have "\<dots> = mset files"
    by (simp add: map_nth)
  finally have perm: "mset (map ((!) files) order) = mset files" .
  have sel: "mset (selected_docs (map ((!) files) order)) = mset (selected_docs files)"
    using perm by (simp add: selected_docs_def map_filter_def)
  have sequential: "handleFileChange (Some files) order s = s\<lparr>documents := documents s @ selected_docs files\<rparr>"
    if "order = [0..<length files]"
    using app that by (simp only: map_nth)
  show ?thesis
    using app sel sequential by blast
qed

text \<open>Two text files, the second finishing first.\<close>

theorem batch_appended_in_completion_order_witness:
  "completion_order (length [file_a, file_b]) [1, 0] \<and> list_all (\<lambda>f. \<not> rejects f) [file_a, file_b] \<and>
   handleFileChange (Some [file_a, file_b]) [1, 0] initial = initial\<lparr>documents := [doc_b, doc_a]\<rparr>"
  using batch_appended_in_completion_order [of "[file_a, file_b]" "[1, 0]" initial]
  by (simp add: completion_order_def rejects_def read_text_files selected_docs_def initial_def)

text \<open>
  Claim C2 as stated fails when the task of the second file finishes before the task of
  the first: both succeed, and the documents are appended in the order b, a, not in the
  order of selection a, b.
\<close>

theorem selection_order_counterexample:
  "completion_order (length [file_a, file_b]) [1, 0] \<and> \<not> rejects file_a \<and> \<not> rejects file_b \<and>
   selected_docs [file_a, file_b] = [doc_a, doc_b] \<and>
   documents (handleFileChange (Some [file_a, file_b]) [1, 0] initial) = [doc_b, doc_a] \<and>
   documents (handleFileChange (Some [file_a, file_b]) [1, 0] initial)
     \<noteq> documents initial @ selected_docs [file_a, file_b]"
  by (simp add: completion_order_def rejects_def read_text_files selected_docs_def initial_def
      handleFileChange_def doc_a_def doc_b_def lit_def)

section \<open>The prompt\<close>

lemma in_order_prepend: "in_order ps s \<Longrightarrow> in_order ps (pre @ s)"
proof (cases ps)
  case Nil
  then show ?thesis by simp
next
  case (Cons p qs)
  assume "in_order ps s"
  then obtain a b where "s = a @ p @ b" and "in_order qs b"
    using Cons by auto
  then have "pre @ s = (pre @ a) @ p @ b \<and> in_order qs b"
    by simp
  then show ?thesis
    unfolding Cons in_order.simps by blast
qed

lemma in_order_append: "in_order ps s \<Longrightarrow> in_order qs t \<Longrightarrow> in_order (ps @ qs) (s @ t)"
proof (induction ps arbitrary: s)
  case Nil
  then show ?case by (simp add: in_order_prepend)
next
  case (Cons p ps)
  then obtain a b where s: "s = a @ p @ b" and b: "in_order ps b"
    by auto
  have "in_order (ps @ qs) (b @ t)"
    using Cons.IH [OF b Cons.prems(2)] .
  moreover have "s @ t = a @ p @ (b @ t)"
    using s by simp
  ultimately show ?case
    unfolding append_Cons in_order.simps by blast
qed

lemma in_order_single: "in_order [p] (pre @ p @ post)"
  by auto

lemma in_order_block: "in_order [name doc, content doc] (document_block doc)"
proof -
  have "in_order ([name doc] @ [content doc])
          ((lit ''\<newline>---\<newline>Document: '' @ name doc @ []) @
           (lit ''\<newline>Content:\<newline>'' @ content doc @ lit ''\<newline>---\<newline>  ''))"
    by (intro in_order_append in_order_single)
  then show ?thesis
    by (simp add: document_block_def)
qed

lemma in_order_context:
  "in_order (concat (map (\<lambda>doc. [name doc, content doc]) docs)) (documentsContext docs)"
proof (induction docs)
  case Nil
  then show ?case by (simp add: documentsContext_def)
next
  case (Cons d ds)
  show ?case
  proof (cases ds)
    case Nil
    then show ?thesis
      using in_order_block [of d] by (simp add: documentsContext_def)
  next
    case (Cons e es)
    have "in_order ([name d, content d] @ concat (map (\<lambda>doc. [name doc, content doc]) ds))
            (document_block d @ (lit ''\<newline>'' @ documentsContext ds))"
      by (intro in_order_append in_order_block in_order_prepend Cons.IH)
    then show ?thesis
      using Cons by (simp add: documentsContext_def)
  qed
qed

text \<open>
  Claim C6: for every question and every list of documents, the prompt contains the name
  and the full text of each document as substrings, document after document in the order
  of the list, and after them the question as it was given.
\<close>

theorem prompt_contains_documents_then_question:
  "in_order (concat (map (\<lambda>doc. [name doc, content doc]) docs) @ [question]) (userPrompt question docs)"
proof -
  have "in_order (concat (map (\<lambda>doc. [name doc, content doc]) docs) @ [question])
          (documentsContext docs @
             (lit ''\<newline>\<newline>Based on the document(s) provided, answer the following question.\<newline>\<newline>USER QUESTION:\<newline>''
               @ question @ lit ''\<newline>''))"
    by (intro in_order_append in_order_context in_order_single)
  then show ?thesis
    unfolding userPrompt_def by (rule in_order_prepend)
qed

text \<open>The prompt for one document and a question, written out.\<close>

theorem prompt_contains_documents_then_question_witness:
  "userPrompt sky_question [notes_doc] =
     lit ''\<newline>CONTEXT FROM DOCUMENTS:\<newline>\<newline>---\<newline>Document: notes.txt\<newline>Content:\<newline>The sky is blue.\<newline>---\<newline>  \<newline>\<newline>Based on the document(s) provided, answer the following question.\<newline>\<newline>USER QUESTION:\<newline>What color is the sky?\<newline>''
   \<and> in_order [lit ''notes.txt'', lit ''The sky is blue.'', lit ''What color is the sky?'']
         (userPrompt sky_question [notes_doc])"
proof -
  have "userPrompt sky_question [notes_doc] =
     lit ''\<newline>CONTEXT FROM DOCUMENTS:\<newline>\<newline>---\<newline>Document: notes.txt\<newline>Content:\<newline>The sky is blue.\<newline>---\<newline>  \<newline>\<newline>Based on the document(s) provided, answer the following question.\<newline>\<newline>USER QUESTION:\<newline>What color is the sky?\<newline>''"
    by (simp add: userPrompt_def documentsContext_def document_block_def notes_doc_def sky_question_def lit_def)
  moreover have "in_order [lit ''notes.txt'', lit ''The sky is blue.'', lit ''What color is the sky?'']
         (userPrompt sky_question [notes_doc])"
    using prompt_contains_documents_then_question [of "[notes_doc]" sky_question]
    by (simp add: notes_doc_def sky_question_def)
  ultimately show ?thesis
    by blast
qed

section \<open>The service without a credential\<close>

text \<open>
  Claim C7: with no credential configured (\<open>API_KEY\<close> undefined or empty) the call
  fails at once with the error that says so, and no request is sent.
\<close>

theorem missing_credential_fails_without_request:
  assumes "API_KEY env = None \<or> API_KEY env = Some []"
  shows "askAboutDocuments env question docs =
           (Inl (Error (lit ''API_KEY environment variable not set'')), [])"
  using assms by (simp add: askAboutDocuments_def)

theorem missing_credential_fails_without_request_witness:
  "API_KEY env_no_key = None \<and>
   askAboutDocuments env_no_key sky_question [notes_doc] =
     (Inl (Error (lit ''API_KEY environment variable not set'')), [])"
  using missing_credential_fails_without_request [of env_no_key sky_question "[notes_doc]"]
  by (simp add: env_no_key_def)

section \<open>Removing a document\<close>

text \<open>
  Claim C9: removing by name removes every document of that name, duplicates too; the
  documents of other names are all kept, unchanged and in their order (the list of them is
  the same before and after, and what is left is a subsequence of what was there); the
  rest of the state is untouched.
\<close>

theorem removeDocument_removes_every_match:
  "(\<forall>doc \<in> set (documents (removeDocument docName s)). name doc \<noteq> docName) \<and>
   filter (\<lambda>doc. name doc \<noteq> docName) (documents (removeDocument docName s)) =
     filter (\<lambda>doc. name doc \<noteq> docName) (documents s) \<and>
   subseq (documents (removeDocument docName s)) (documents s) \<and>
   (\<forall>doc \<in> set (documents s). name doc \<noteq> docName \<longrightarrow> doc \<in> set (documents (removeDocument docName s))) \<and>
   removeDocument docName s = s\<lparr>documents := documents (removeDocument docName s)\<rparr>"
  by (simp add: removeDocument_def)

text \<open>Two documents named b.txt among four.\<close>

theorem removeDocument_removes_every_match_witness:
  "documents (removeDocument (lit ''b.txt'')
      (initial\<lparr>documents := [doc_a, doc_b, notes_doc, doc_b\<lparr>content := lit ''gamma''\<rparr>]\<rparr>)) = [doc_a, notes_doc]"
  using removeDocument_removes_every_match [of "lit ''b.txt''"
      "initial\<lparr>documents := [doc_a, doc_b, notes_doc, doc_b\<lparr>content := lit ''gamma''\<rparr>]\<rparr>"]
  by (simp add: removeDocument_def doc_a_def doc_b_def notes_doc_def lit_def)

section \<open>Submitting a question\<close>

lemma handleSubmit_begin_pending: "isLoading s \<Longrightarrow> handleSubmit_begin query now s = (s, None)"
  by (simp add: handleSubmit_begin_def)

lemma handleSubmit_begin_accepts:
  "trim query \<noteq> [] \<Longrightarrow> \<not> isLoading s \<Longrightarrow> documents s \<noteq> [] \<Longrightarrow>
   handleSubmit_begin query now s =
     (s\<lparr>error := None,
        messages := messages s @ [\<lparr>id' = toString now, sender = user, text' = query\<rparr>],
        isLoading := True\<rparr>,
      Some (query, documents s))"
  by (simp add: handleSubmit_begin_def)

lemma handleSubmit_begin_cases:
  "handleSubmit_begin query now s = (s, None) \<and> (trim query = [] \<or> isLoading s)
   \<or> handleSubmit_begin query now s =
        (s\<lparr>error := Some (lit ''Please upload at least one document before asking a question.'')\<rparr>, None)
      \<and> \<not> isLoading s
   \<or> handleSubmit_begin query now s =
        (s\<lparr>error := None,
           messages := messages s @ [\<lparr>id' = toString now, sender = user, text' = query\<rparr>],
           isLoading := True\<rparr>,
         Some (query, documents s)) \<and> \<not> isLoading s"
  by (simp add: handleSubmit_begin_def)

lemma trim_sky_question: "trim sky_question = sky_question"
  by (simp add: sky_question_def trim_def isWhiteSpace_def lit_def)

lemma sky_question_not_blank: "sky_question \<noteq> []"
  by (simp add: sky_question_def lit_def)


lemma toString_1000: "toString 1000 = lit ''1000''"
  by (simp add: toString.simps lit_def)

lemma toString_5001: "toString 5001 = lit ''5001''"
  by (simp add: toString.simps lit_def)

lemma ask_env_ok: "askAboutDocuments env_ok q docs =
  (Inr (lit ''The sky is blue.''),
   [\<lparr>model = lit ''gemini-2.5-flash'', contents = userPrompt q docs, systemInstruction = SYSTEM_INSTRUCTION\<rparr>])"
  by (simp add: askAboutDocuments_def env_ok_def lit_def)

lemma ask_env_down: "askAboutDocuments env_down q docs =
  (Inl (Error (lit ''Failed to get a response from the AI. Please check the console for details.'')),
   [\<lparr>model = lit ''gemini-2.5-flash'', contents = userPrompt q docs, systemInstruction = SYSTEM_INSTRUCTION\<rparr>])"
  by (simp add: askAboutDocuments_def env_down_def lit_def)

lemma askAboutDocuments_errors:
  assumes "fst (askAboutDocuments env q docs) = Inl err"
  shows "err = Error (lit ''API_KEY environment variable not set'') \<or>
         err = Error (lit ''Failed to get a response from the AI. Please check the console for details.'')"
  using assms by (auto simp: askAboutDocuments_def Let_def split: if_splits sum.splits)




text \<open>
  Claim C10: when the call of the service fails for an accepted submission, the thrown
  value is an \<open>Error\<close>, and the handler ends in the state it found but for: the user's
  message appended to the transcript and no other message, the error slot holding the
  message of the error, \<open>isLoading\<close> cleared and the input emptied; the documents are as
  before. The last part of the handler does the same on whatever state it finds when the
  failure arrives. In the state reached, a next question that is not blank is accepted.
\<close>

theorem failed_answer_keeps_user_message:
  assumes "trim query \<noteq> []" and "\<not> isLoading s" and "documents s \<noteq> []"
    and "fst (askAboutDocuments env query (documents s)) = Inl err"
  shows "(\<exists>message. err = Error message \<and>
           handleSubmit env query now later s =
             (s\<lparr>messages := messages s @ [\<lparr>id' = toString now, sender = user, text' = query\<rparr>],
                error := Some message, isLoading := False, userInput := []\<rparr>,
              snd (askAboutDocuments env query (documents s))) \<and>
           handleSubmit_end (Inl err) later s2 = s2\<lparr>error := Some message, isLoading := False, userInput := []\<rparr>)
         \<and> (trim query' \<noteq> [] \<longrightarrow>
              snd (handleSubmit_begin query' now' (fst (handleSubmit env query now later s))) =
                Some (query', documents s))"
proof -
  obtain message where err: "err = Error message"
    using askAboutDocuments_errors [OF assms(4)] by blast
  obtain calls where ask: "askAboutDocuments env query (documents s) = (Inl (Error message), calls)"
    using assms(4) err by (cases "askAboutDocuments env query (documents s)") simp
  have run: "handleSubmit env query now later s =
             (s\<lparr>messages := messages s @ [\<lparr>id' = toString now, sender = user, text' = query\<rparr>],
                error := Some message, isLoading := False, userInput := []\<rparr>,
              snd (askAboutDocuments env query (documents s)))"
    using assms(1-3) ask by (simp add: handleSubmit_def handleSubmit_begin_accepts handleSubmit_end_def)
  have last: "handleSubmit_end (Inl err) later s2 = s2\<lparr>error := Some message, isLoading := False, userInput := []\<rparr>"
    using err by (simp add: handleSubmit_end_def)
  have again: "snd (handleSubmit_begin query' now' (fst (handleSubmit env query now later s))) =
                 Some (query', documents s)"
    if "trim query' \<noteq> []"
    using that assms(3) by (simp add: run handleSubmit_begin_def)
  show ?thesis
    using err run last again by blast
qed

text \<open>A question on one document, with the endpoint failing.\<close>

theorem failed_answer_keeps_user_message_witness:
  "trim sky_question \<noteq> [] \<and> \<not> isLoading with_notes \<and> documents with_notes \<noteq> [] \<and>
   fst (askAboutDocuments env_down sky_question (documents with_notes)) =
     Inl (Error (lit ''Failed to get a response from the AI. Please check the console for details.'')) \<and>
   fst (handleSubmit env_down sky_question 1000 1001 with_notes) =
     with_notes\<lparr>messages := [\<lparr>id' = lit ''1000'', sender = user, text' = sky_question\<rparr>],
       error := Some (lit ''Failed to get a response from the AI. Please check the console for details.'')\<rparr>"
proof -
  have asked: "trim sky_question \<noteq> []"
    by (simp add: trim_sky_question sky_question_not_blank)
  have idle: "\<not> isLoading with_notes" and docs: "documents with_notes \<noteq> []"
    by (simp_all add: with_notes_def initial_def)
  have failed: "fst (askAboutDocuments env_down sky_question (documents with_notes)) =
     Inl (Error (lit ''Failed to get a response from the AI. Please check the console for details.''))"
    by (simp add: ask_env_down)
  obtain message where
    "Error (lit ''Failed to get a response from the AI. Please check the console for details.'') = Error message"
    and "handleSubmit env_down sky_question 1000 1001 with_notes =
          (with_notes\<lparr>messages := messages with_notes @ [\<lparr>id' = toString 1000, sender = user, text' = sky_question\<rparr>],
             error := Some message, isLoading := False, userInput := []\<rparr>,
           snd (askAboutDocuments env_down sky_question (documents with_notes)))"
    using failed_answer_keeps_user_message [OF asked idle docs failed,
        where now = 1000 and later = 1001 and ?s2.0 = with_notes]
    by blast
  then have "fst (handleSubmit env_down sky_question 1000 1001 with_notes) =
     with_notes\<lparr>messages := [\<lparr>id' = lit ''1000'', sender = user, text' = sky_question\<rparr>],
       error := Some (lit ''Failed to get a response from the AI. Please check the console for details.'')\<rparr>"
    by (simp add: with_notes_def initial_def toString_1000)
  then show ?thesis
    using asked idle docs failed by blast
qed

section \<open>One request at a time\<close>

lemma isLoading_handleFileChange: "isLoading (handleFileChange files order s) = isLoading s"
  by (simp add: handleFileChange_def split: option.splits sum.splits)

lemma isLoading_handleSubmit_end: "\<not> isLoading (handleSubmit_end result now s)"
  by (simp add: handleSubmit_end_def Let_def split: sum.splits exn.splits)

lemma handleSubmit_closure_rendered: "handleSubmit_closure s query now s = handleSubmit_begin query now s"
  by (simp add: handleSubmit_closure_def handleSubmit_begin_def)

lemma handleSubmit_closure_pending: "isLoading seen \<Longrightarrow> handleSubmit_closure seen query now s = (s, None)"
  by (simp add: handleSubmit_closure_def)

lemma step_one_in_flight:
  assumes "one_in_flight \<sigma>"
    and "\<And>query now. e = QuestionSubmitted query now \<Longrightarrow> rendered \<sigma> = app \<sigma>"
  shows "one_in_flight (step env \<sigma> e)"
proof (cases e)
  case (FilesSelected files order)
  then show ?thesis
    using assms(1) by (simp add: one_in_flight_def isLoading_handleFileChange)
next
  case (DocumentRemoved docName)
  then show ?thesis
    using assms(1) by (simp add: one_in_flight_def removeDocument_def)
next
  case (QuestionSubmitted query now)
  then have seen: "rendered \<sigma> = app \<sigma>"
    using assms(2) by simp
  obtain result calls where ask: "askAboutDocuments env query (documents (app \<sigma>)) = (result, calls)"
    by (cases "askAboutDocuments env query (documents (app \<sigma>))")
  show ?thesis
    using handleSubmit_begin_cases [of query now "app \<sigma>"] assms(1) ask
    by (auto simp: QuestionSubmitted seen handleSubmit_closure_rendered one_in_flight_def)
next
  case (AnswerArrived now)
  show ?thesis
  proof (cases "in_flight \<sigma>")
    case Nil
    then show ?thesis
      using assms(1) AnswerArrived by simp
  next
    case (Cons result rest)
    then have "rest = []"
      using assms(1) by (simp add: one_in_flight_def)
    then show ?thesis
      using Cons AnswerArrived by (simp add: one_in_flight_def isLoading_handleSubmit_end)
  qed
next
  case (SuggestionChosen suggestion)
  then show ?thesis
    using assms(1) by (simp add: one_in_flight_def handleSuggestionClick_def)
next
  case (InputChanged v)
  then show ?thesis
    using assms(1) by (simp add: one_in_flight_def)
next
  case Rendered
  then show ?thesis
    using assms(1) by (simp add: one_in_flight_def)
qed

lemma rendered_before_submitting_Cons:
  assumes "rendered_before_submitting fresh (e # es)"
  shows "rendered_before_submitting (e = Rendered) es"
    and "e = QuestionSubmitted query now \<Longrightarrow> fresh"
  using assms by (cases e; simp)+

text \<open>
  What the guard of \<open>handleSubmit\<close> achieves: a submission from a render that saw
  \<open>isLoading\<close> set does nothing; and in a session where the component has rendered
  before every submission, at most one call is awaited at any time.
\<close>

lemma foldl_one_in_flight:
  "one_in_flight \<sigma> \<Longrightarrow> (fresh \<Longrightarrow> rendered \<sigma> = app \<sigma>) \<Longrightarrow>
   rendered_before_submitting fresh events \<Longrightarrow> one_in_flight (foldl (step env) \<sigma> events)"
proof (induction events arbitrary: \<sigma> fresh)
  case Nil
  then show ?case by simp
next
  case (Cons e es)
  have seen: "rendered \<sigma> = app \<sigma>" if "e = QuestionSubmitted query now" for query now
    using rendered_before_submitting_Cons(2) [OF Cons.prems(3) that] Cons.prems(2) by simp
  have inv: "one_in_flight (step env \<sigma> e)"
    using Cons.prems(1) seen by (rule step_one_in_flight)
  have fresh: "rendered (step env \<sigma> e) = app (step env \<sigma> e)" if "e = Rendered"
    using that by simp
  have "one_in_flight (foldl (step env) (step env \<sigma> e) es)"
    using inv fresh rendered_before_submitting_Cons(1) [OF Cons.prems(3)] by (rule Cons.IH)
  then show ?case by simp
qed

lemma one_in_flight_when_rendered:
  "rendered_before_submitting True events \<Longrightarrow> one_in_flight (run env events)"
  unfolding run_def
  by (rule foldl_one_in_flight [where fresh = True]) (simp_all add: one_in_flight_def start_def initial_def)

lemma run_asked_once:
  "run env_ok asked_once =
     \<lparr>app = initial\<lparr>documents := [notes_doc],
                    messages := [\<lparr>id' = toString 1000, sender = user, text' = sky_question\<rparr>],
                    isLoading := True\<rparr>,
      rendered = initial\<lparr>documents := [notes_doc]\<rparr>,
      in_flight = [Inr (lit ''The sky is blue.'')],
      network = [\<lparr>model = lit ''gemini-2.5-flash'', contents = userPrompt sky_question [notes_doc],
                  systemInstruction = SYSTEM_INSTRUCTION\<rparr>]\<rparr>"
  by (simp add: run_def asked_once_def start_def initial_def handleFileChange_def read_text_files
      handleSubmit_closure_def trim_sky_question sky_question_not_blank ask_env_ok)

text \<open>
  Claim C5 fails on the code: the guard of \<open>handleSubmit\<close> reads the
  \<open>isLoading\<close> that the function took from the last render, not the flag that the
  first submission has just set. With one document held and rendered, a question is
  submitted at 1000: the flag is set and one request is awaited. The handler is called
  again at 1001 before the component has rendered: it passes the guard, a second request is
  sent and two calls are awaited at once. Had the component rendered in between, the
  second submission would have changed nothing.
\<close>

theorem second_submission_before_render_sends_request:
  "isLoading (app (run env_ok asked_once)) \<and>
   length (in_flight (run env_ok asked_once)) = 1 \<and>
   length (network (run env_ok asked_once)) = 1 \<and>
   length (in_flight (run env_ok asked_before_render)) = 2 \<and>
   length (network (run env_ok asked_before_render)) = 2 \<and>
   map sender (messages (app (run env_ok asked_before_render))) = [user, user] \<and>
   run env_ok (asked_once @ [Rendered, QuestionSubmitted sky_question 1001]) = run env_ok (asked_once @ [Rendered])"
proof -
  have unrendered: "run env_ok asked_before_render =
          step env_ok (run env_ok asked_once) (QuestionSubmitted sky_question 1001)"
    by (simp add: run_def asked_before_render_def)
  have "run env_ok (asked_once @ [Rendered, QuestionSubmitted sky_question 1001]) =
          step env_ok (step env_ok (run env_ok asked_once) Rendered) (QuestionSubmitted sky_question 1001)"
    and "run env_ok (asked_once @ [Rendered]) = step env_ok (run env_ok asked_once) Rendered"
    by (simp_all add: run_def)
  then have "run env_ok (asked_once @ [Rendered, QuestionSubmitted sky_question 1001]) =
          run env_ok (asked_once @ [Rendered])"
    by (simp add: run_asked_once handleSubmit_closure_def)
  then show ?thesis
    by (simp add: unrendered run_asked_once handleSubmit_closure_def initial_def trim_sky_question
        sky_question_not_blank ask_env_ok)
qed

section \<open>The ids of the messages\<close>

text \<open>
  Claim C8 fails on the code: an id is the clock reading of the moment, for the
  assistant's message the reading plus one. With a question asked at 1000, its answer
  arriving at 5000 and the next question asked at 5001, the component rendering after
  each of these events, the transcript holds the ids
  1000, 5001 and 5001: the second user message has the id of the assistant's message
  before it, so the ids are neither unique nor increasing.
\<close>

theorem message_ids_collide:
  "map id' (messages (app (run env_ok asked_twice))) = [lit ''1000'', lit ''5001'', lit ''5001''] \<and>
   map sender (messages (app (run env_ok asked_twice))) = [user, ai, user] \<and>
   \<not> distinct (map id' (messages (app (run env_ok asked_twice))))"
proof -
  have "run env_ok asked_twice =
          foldl (step env_ok) (run env_ok asked_once)
            [Rendered, AnswerArrived 5000, Rendered, QuestionSubmitted sky_question 5001]"
    by (simp add: run_def asked_twice_def)
  then have "map id' (messages (app (run env_ok asked_twice))) = [toString 1000, toString 5001, toString 5001]
      \<and> map sender (messages (app (run env_ok asked_twice))) = [user, ai, user]"
    by (simp add: run_asked_once handleSubmit_end_def handleSubmit_closure_def trim_sky_question
        sky_question_not_blank ask_env_ok)
  then show ?thesis
    by (simp add: toString_1000 toString_5001)
qed

end
